theory Spec2Isabelle
  imports Main "HOL-Library.Word"
begin

unbundle bit_operations_syntax

section \<open>The coffee machine: data model\<close>

text \<open>
  The machine of the typed implementation (\<^verbatim>\<open>StartJob(product, jobID) (Job, error)\<close>,
  \<^verbatim>\<open>RetrieveJob\<close>, \<^verbatim>\<open>History\<close>, \<^verbatim>\<open>awaitCompletion\<close>, \<^verbatim>\<open>generateJobID\<close>).
  A \<^verbatim>\<open>Product\<close> is a Go string. A \<^verbatim>\<open>time.Time\<close> is its monotonic clock reading in
  nanoseconds, an unbounded integer; a \<^verbatim>\<open>time.Duration\<close> is an integer too. The
  pointer \<^verbatim>\<open>JobRetrieved *time.Time\<close> is an option. The mutex makes every method
  atomic, so each method is one function from the machine to a result and the machine
  after the call; the readings of \<^verbatim>\<open>time.Now()\<close>, the value of \<^verbatim>\<open>brewTimeFn()\<close>
  and what \<^verbatim>\<open>crypto/rand.Read\<close> delivers are arguments.
\<close>

type_synonym Product = string

definition ProductCoffee :: Product where "ProductCoffee = ''COFFEE''"
definition ProductStrongCoffee :: Product where "ProductStrongCoffee = ''STRONG_COFFEE''"
definition ProductCappuccino :: Product where "ProductCappuccino = ''CAPPUCCINO''"
definition ProductCoffeeWithMilk :: Product where "ProductCoffeeWithMilk = ''COFFEE_WITH_MILK''"
definition ProductEspresso :: Product where "ProductEspresso = ''ESPRESSO''"
definition ProductEspressoChocolate :: Product where
  "ProductEspressoChocolate = ''ESPRESSO_CHOCOLATE''"
definition ProductKakao :: Product where "ProductKakao = ''KAKAO''"
definition ProductHotWater :: Product where "ProductHotWater = ''HOT_WATER''"

text \<open>The keys of the map \<^verbatim>\<open>supportedProducts\<close>.\<close>

definition supportedProducts :: "Product list" where
  "supportedProducts =
     [ProductCoffee, ProductStrongCoffee, ProductCappuccino, ProductCoffeeWithMilk,
      ProductEspresso, ProductEspressoChocolate, ProductKakao, ProductHotWater]"

definition valid :: "Product \<Rightarrow> bool" where
  "valid p = (p \<in> set supportedProducts)"

datatype MachineState = StateAvailable | StateBrewing | StateBlocked

record Job =
  JobID :: string
  Product :: Product
  JobStarted :: int
  JobReady :: int
  JobRetrieved :: "int option"

text \<open>
  The six error values of the package, and the error that \<^verbatim>\<open>generateJobID\<close> wraps
  around the failure of the entropy source (\<^verbatim>\<open>fmt.Errorf("generate job id: %w", err)\<close>).
\<close>

datatype error =
    ErrMachineBusy
  | ErrUnsupportedProduct
  | ErrJobNotFound
  | ErrJobNotReady
  | ErrJobAlreadyRetrieved
  | ErrJobIDExists
  | ErrGenerateJobID string

record Machine =
  state :: MachineState
  jobs :: "string \<rightharpoonup> Job"
  history :: "string list"
  currentJob :: string

definition NewMachine :: Machine where
  "NewMachine = \<lparr>state = StateAvailable, jobs = Map.empty, history = [], currentJob = ''''\<rparr>"

definition Ready :: "Machine \<Rightarrow> bool" where
  "Ready m = (state m = StateAvailable)"

definition Status :: "Machine \<Rightarrow> MachineState" where
  "Status m = state m"

section \<open>Identifier generation\<close>

text \<open>
  \<^verbatim>\<open>%02x\<close> of a byte: two lowercase hexadecimal digits, the high nibble first.
\<close>

definition hexDigit :: "nat \<Rightarrow> char" where
  "hexDigit n = ''0123456789abcdef'' ! (n mod 16)"

definition fmt02x :: "8 word \<Rightarrow> string" where
  "fmt02x b = [hexDigit (unat (drop_bit 4 b)), hexDigit (unat (b AND 0x0f))]"

text \<open>
  \<^verbatim>\<open>crand.Read(b[:])\<close> either fails with an error (its message is the \<open>Inl\<close>) or
  fills the array \<^verbatim>\<open>b [16]byte\<close> (the \<open>Inr\<close>, a list of sixteen bytes). Bytes 6 and 8
  then get the version and variant bits, and the sixteen bytes are printed in the
  groups 4-2-2-2-6.
\<close>

definition setVersionVariant :: "8 word list \<Rightarrow> 8 word list" where
  "setVersionVariant b =
     (let b1 = b[6 := (b ! 6 AND 0x0f) OR 0x40]
      in b1[8 := (b1 ! 8 AND 0x3f) OR 0x80])"

definition formatJobID :: "8 word list \<Rightarrow> string" where
  "formatJobID b =
     fmt02x (b ! 0) @ fmt02x (b ! 1) @ fmt02x (b ! 2) @ fmt02x (b ! 3) @ ''-'' @
     fmt02x (b ! 4) @ fmt02x (b ! 5) @ ''-'' @
     fmt02x (b ! 6) @ fmt02x (b ! 7) @ ''-'' @
     fmt02x (b ! 8) @ fmt02x (b ! 9) @ ''-'' @
     fmt02x (b ! 10) @ fmt02x (b ! 11) @ fmt02x (b ! 12) @ fmt02x (b ! 13) @
     fmt02x (b ! 14) @ fmt02x (b ! 15)"

definition generateJobID :: "string + 8 word list \<Rightarrow> error + string" where
  "generateJobID entropy =
     (case entropy of
        Inl err \<Rightarrow> Inl (ErrGenerateJobID err)
      | Inr b \<Rightarrow> Inr (formatJobID (setVersionVariant b)))"

section \<open>The operations of the machine\<close>

text \<open>
  \<^verbatim>\<open>StartJob\<close>: the checks in the order of the source (product, state, identifier
  generation, identifier conflict), then the new job, the history entry, the current
  job and the state. \<open>now\<close> is \<^verbatim>\<open>time.Now()\<close>, \<open>brewDuration\<close> is
  \<^verbatim>\<open>m.brewTimeFn()\<close>, \<open>entropy\<close> is what the entropy source delivers when asked.
  The goroutine started at the end is the event \<open>EvTimer\<close> below.
\<close>

definition StartJob ::
  "Machine \<Rightarrow> Product \<Rightarrow> string \<Rightarrow> int \<Rightarrow> int \<Rightarrow> string + 8 word list
     \<Rightarrow> (error + Job) \<times> Machine" where
  "StartJob m product jobID now brewDuration entropy =
     (if \<not> valid product then (Inl ErrUnsupportedProduct, m)
      else if state m \<noteq> StateAvailable then (Inl ErrMachineBusy, m)
      else
        (case (if jobID = '''' then generateJobID entropy else Inr jobID) of
           Inl err \<Rightarrow> (Inl err, m)
         | Inr jid \<Rightarrow>
             (if jobs m jid \<noteq> None then (Inl ErrJobIDExists, m)
              else
                (let job = \<lparr>JobID = jid, Product = product, JobStarted = now,
                            JobReady = now + brewDuration, JobRetrieved = None\<rparr>
                 in (Inr job,
                     m\<lparr>jobs := (jobs m)(jid \<mapsto> job),
                       history := history m @ [jid],
                       currentJob := jid,
                       state := StateBrewing\<rparr>)))))"

text \<open>
  \<^verbatim>\<open>RetrieveJob\<close> reads the clock twice: \<open>t1\<close> for the test
  \<^verbatim>\<open>time.Now().Before(job.JobReady)\<close>, \<open>t2\<close> for the stamp.
\<close>

definition RetrieveJob ::
  "Machine \<Rightarrow> string \<Rightarrow> int \<Rightarrow> int \<Rightarrow> (error + Job) \<times> Machine" where
  "RetrieveJob m jobID t1 t2 =
     (case jobs m jobID of
        None \<Rightarrow> (Inl ErrJobNotFound, m)
      | Some job \<Rightarrow>
          (if JobRetrieved job \<noteq> None then (Inl ErrJobAlreadyRetrieved, m)
           else if t1 < JobReady job then (Inl ErrJobNotReady, m)
           else
             (let job' = job\<lparr>JobRetrieved := Some t2\<rparr>;
                  m1 = m\<lparr>jobs := (jobs m)(jobID \<mapsto> job')\<rparr>;
                  m2 = (if currentJob m1 = jobID
                        then m1\<lparr>currentJob := '''', state := StateAvailable\<rparr>
                        else m1)
              in (Inr job', m2))))"

text \<open>\<^verbatim>\<open>History\<close>: the jobs of the identifiers in \<^verbatim>\<open>m.history\<close> that the map holds.\<close>

fun History_loop :: "(string \<rightharpoonup> Job) \<Rightarrow> string list \<Rightarrow> Job list" where
  "History_loop js [] = []"
| "History_loop js (jid # ids) =
     (case js jid of
        Some job \<Rightarrow> job # History_loop js ids
      | None \<Rightarrow> History_loop js ids)"

definition History :: "Machine \<Rightarrow> Job list" where
  "History m = History_loop (jobs m) (history m)"

text \<open>\<^verbatim>\<open>awaitCompletion\<close> after its sleep: the part under the mutex.\<close>

definition awaitCompletion :: "Machine \<Rightarrow> string \<Rightarrow> Machine" where
  "awaitCompletion m jobID =
     (case jobs m jobID of
        Some job \<Rightarrow> (if JobRetrieved job = None then m\<lparr>state := StateBlocked\<rparr> else m)
      | None \<Rightarrow> m)"

section \<open>The specification's words for two notions\<close>

text \<open>
  The design prescribes that the completion timer acts only if the machine still tracks
  the job as its active job. This is that check, written from the specification's
  words, to be compared with \<open>awaitCompletion\<close>.
\<close>

definition awaitCompletion_design :: "Machine \<Rightarrow> string \<Rightarrow> Machine" where
  "awaitCompletion_design m jobID =
     (if currentJob m = jobID then m\<lparr>state := StateBlocked\<rparr> else m)"

text \<open>
  The textual form of a version-4 identifier: 36 characters, hyphens at the positions
  8, 13, 18 and 23, lowercase hexadecimal digits elsewhere, the version digit \<open>4\<close> at
  position 14 and one of \<open>8\<close>, \<open>9\<close>, \<open>a\<close>, \<open>b\<close> (variant bits \<open>10\<close>) at position 19.
\<close>

definition isHex :: "char \<Rightarrow> bool" where
  "isHex c = (c \<in> set ''0123456789abcdef'')"

definition isUUIDv4 :: "string \<Rightarrow> bool" where
  "isUUIDv4 s \<longleftrightarrow>
     length s = 36 \<and>
     list_all (\<lambda>k. if k \<in> set [8, 13, 18, 23] then s ! k = CHR ''-'' else isHex (s ! k))
       [0..<36] \<and>
     s ! 14 = CHR ''4'' \<and>
     s ! 19 \<in> set ''89ab''"

section \<open>Runs of the machine\<close>

text \<open>
  The mutex serialises the calls, so a run of the machine is a sequence of events, each
  atomic: a call of \<^verbatim>\<open>StartJob\<close> with its inputs, a call of \<^verbatim>\<open>RetrieveJob\<close>
  with its two clock readings, and the wake-up of the goroutine
  \<^verbatim>\<open>awaitCompletion(jobID, duration)\<close> at some time. \<^verbatim>\<open>Status\<close>, \<^verbatim>\<open>Ready\<close> and
  \<^verbatim>\<open>History\<close> only read the machine and are no events.
\<close>

datatype event =
    EvStart Product string int int "string + 8 word list"
  | EvRetrieve string int int
  | EvTimer string int

fun do_event :: "Machine \<Rightarrow> event \<Rightarrow> Machine" where
  "do_event m (EvStart product jobID now brewDuration entropy) =
     snd (StartJob m product jobID now brewDuration entropy)"
| "do_event m (EvRetrieve jobID t1 t2) = snd (RetrieveJob m jobID t1 t2)"
| "do_event m (EvTimer jobID t) = awaitCompletion m jobID"

text \<open>
  \<open>run\<close> applies events in any order and with any clock readings: it covers every
  interleaving of callers and timers, and more.
\<close>

fun run :: "Machine \<Rightarrow> event list \<Rightarrow> Machine" where
  "run m [] = m"
| "run m (e # es) = run (do_event m e) es"

text \<open>The jobs that the successful \<^verbatim>\<open>StartJob\<close> calls of a run returned, in order.\<close>

fun admitted :: "Machine \<Rightarrow> event list \<Rightarrow> Job list" where
  "admitted m [] = []"
| "admitted m (EvStart product jobID now brewDuration entropy # es) =
     (case fst (StartJob m product jobID now brewDuration entropy) of
        Inr job \<Rightarrow> [job]
      | Inl err \<Rightarrow> []) @
     admitted (do_event m (EvStart product jobID now brewDuration entropy)) es"
| "admitted m (e # es) = admitted (do_event m e) es"

definition unretrieved :: "Job \<Rightarrow> Job" where
  "unretrieved job = job\<lparr>JobRetrieved := None\<rparr>"

subsection \<open>Runs with a clock\<close>

text \<open>
  A world is the machine, the latest clock reading, and the goroutines that sleep: each
  with the identifier it was started for and the earliest time it can wake, which is
  the start time plus the duration (\<^verbatim>\<open>time.Sleep\<close> pauses for at least the duration).
  An event is enabled when its clock readings do not go back in time (\<^verbatim>\<open>time.Now()\<close>
  carries a monotonic reading, and \<^verbatim>\<open>Before\<close> compares those), and a timer event when
  a goroutine for that identifier sleeps and may wake at that time.
\<close>

record World =
  machine :: Machine
  clock :: int
  timers :: "(string \<times> int) list"

definition NewWorld :: World where
  "NewWorld = \<lparr>machine = NewMachine, clock = 0, timers = []\<rparr>"

definition woken :: "(string \<times> int) list \<Rightarrow> string \<Rightarrow> int \<Rightarrow> (string \<times> int) option" where
  "woken ts jobID t = find (\<lambda>(i, due). i = jobID \<and> due \<le> t) ts"

fun enabled :: "World \<Rightarrow> event \<Rightarrow> bool" where
  "enabled w (EvStart product jobID now brewDuration entropy) = (clock w \<le> now)"
| "enabled w (EvRetrieve jobID t1 t2) = (clock w \<le> t1 \<and> t1 \<le> t2)"
| "enabled w (EvTimer jobID t) = (clock w \<le> t \<and> woken (timers w) jobID t \<noteq> None)"

fun after :: "World \<Rightarrow> event \<Rightarrow> World" where
  "after w (EvStart product jobID now brewDuration entropy) =
     (case StartJob (machine w) product jobID now brewDuration entropy of
        (Inr job, m') \<Rightarrow>
          \<lparr>machine = m', clock = now, timers = timers w @ [(JobID job, now + brewDuration)]\<rparr>
      | (Inl err, m') \<Rightarrow> \<lparr>machine = m', clock = now, timers = timers w\<rparr>)"
| "after w (EvRetrieve jobID t1 t2) =
     \<lparr>machine = snd (RetrieveJob (machine w) jobID t1 t2), clock = t2, timers = timers w\<rparr>"
| "after w (EvTimer jobID t) =
     \<lparr>machine = awaitCompletion (machine w) jobID, clock = t,
      timers = (case woken (timers w) jobID t of
                  Some p \<Rightarrow> remove1 p (timers w)
                | None \<Rightarrow> timers w)\<rparr>"

fun exec :: "World \<Rightarrow> event list \<Rightarrow> World option" where
  "exec w [] = Some w"
| "exec w (e # es) = (if enabled w e then exec (after w e) es else None)"

text \<open>The goroutine for a job still sleeps.\<close>

definition pending :: "World \<Rightarrow> string \<Rightarrow> bool" where
  "pending w jobID = (jobID \<in> fst ` set (timers w))"

subsection \<open>Invariants\<close>

definition inv_machine :: "Machine \<Rightarrow> bool" where
  "inv_machine m \<longleftrightarrow>
     jobs m '''' = None \<and>
     (\<forall>i j. jobs m i = Some j \<longrightarrow> JobID j = i \<and> (JobRetrieved j = None \<longleftrightarrow> currentJob m = i)) \<and>
     (currentJob m \<noteq> '''' \<longrightarrow> jobs m (currentJob m) \<noteq> None) \<and>
     (state m = StateAvailable \<longleftrightarrow> currentJob m = '''') \<and>
     set (history m) = dom (jobs m) \<and> distinct (history m)"

definition inv_world :: "World \<Rightarrow> bool" where
  "inv_world w \<longleftrightarrow>
     inv_machine (machine w) \<and>
     distinct (map fst (timers w)) \<and>
     (\<forall>i due. (i, due) \<in> set (timers w) \<longrightarrow>
        (\<exists>j. jobs (machine w) i = Some j \<and> JobReady j = due)) \<and>
     (\<forall>i j r. jobs (machine w) i = Some j \<and> JobRetrieved j = Some r \<longrightarrow>
        JobReady j \<le> r \<and> r \<le> clock w) \<and>
     (\<forall>i j. jobs (machine w) i = Some j \<and> JobRetrieved j = None \<longrightarrow>
        (if pending w i then state (machine w) = StateBrewing
         else state (machine w) = StateBlocked \<and> JobReady j \<le> clock w))"

section \<open>Concrete runs\<close>

text \<open>
  The data of the runs at which the theorems below are instantiated. The first follows
  the repository's test of the whole cycle: a job with a brew duration of 10, the timer
  at 15, the retrieval at 20. \<open>zero_bytes\<close> is an entropy source that delivers sixteen
  zero bytes.
\<close>

definition zero_bytes :: "8 word list" where
  "zero_bytes = [0, 0, 0, 0, 0, 0, 0, 0, 0, 0, 0, 0, 0, 0, 0, 0]"

definition zero_id :: string where
  "zero_id = ''00000000-0000-4000-8000-000000000000''"

definition job1 :: Job where
  "job1 = \<lparr>JobID = ''job-1'', Product = ProductCoffee, JobStarted = 0, JobReady = 10,
            JobRetrieved = None\<rparr>"

definition machine_brewing :: Machine where
  "machine_brewing = \<lparr>state = StateBrewing, jobs = [''job-1'' \<mapsto> job1],
     history = [''job-1''], currentJob = ''job-1''\<rparr>"

definition machine_blocked :: Machine where
  "machine_blocked = machine_brewing\<lparr>state := StateBlocked\<rparr>"

definition machine_done :: Machine where
  "machine_done = \<lparr>state = StateAvailable, jobs = [''job-1'' \<mapsto> job1\<lparr>JobRetrieved := Some 21\<rparr>],
     history = [''job-1''], currentJob = ''''\<rparr>"

definition machine_race :: Machine where
  "machine_race = \<lparr>state = StateAvailable, jobs = [''job-1'' \<mapsto> job1\<lparr>JobRetrieved := Some 10\<rparr>],
     history = [''job-1''], currentJob = ''''\<rparr>"

definition happy_trace :: "event list" where
  "happy_trace = [EvStart ProductCoffee ''job-1'' 0 10 (Inr zero_bytes), EvTimer ''job-1'' 15,
                  EvRetrieve ''job-1'' 20 21]"

definition world_brewing :: World where
  "world_brewing = \<lparr>machine = machine_brewing, clock = 0, timers = [(''job-1'', 10)]\<rparr>"

definition world_blocked :: World where
  "world_blocked = \<lparr>machine = machine_blocked, clock = 15, timers = []\<rparr>"

definition world_done :: World where
  "world_done = \<lparr>machine = machine_done, clock = 21, timers = []\<rparr>"

definition kakao1 :: Job where
  "kakao1 = \<lparr>JobID = ''job-1'', Product = ProductKakao, JobStarted = 0, JobReady = 30,
              JobRetrieved = None\<rparr>"

definition machine_kakao :: Machine where
  "machine_kakao = \<lparr>state = StateBrewing, jobs = [''job-1'' \<mapsto> kakao1],
     history = [''job-1''], currentJob = ''job-1''\<rparr>"

definition job2 :: Job where
  "job2 = \<lparr>JobID = ''job-2'', Product = ProductKakao, JobStarted = 30, JobReady = 60,
            JobRetrieved = None\<rparr>"

definition machine_two :: Machine where
  "machine_two = \<lparr>state = StateBrewing,
     jobs = [''job-1'' \<mapsto> job1\<lparr>JobRetrieved := Some 21\<rparr>, ''job-2'' \<mapsto> job2],
     history = [''job-1'', ''job-2''], currentJob = ''job-2''\<rparr>"

definition two_trace :: "event list" where
  "two_trace = happy_trace @
     [EvStart ProductKakao ''job-2'' 30 30 (Inr zero_bytes),
      EvStart ProductEspresso ''job-3'' 31 30 (Inr zero_bytes)]"

definition zero_job :: Job where
  "zero_job = \<lparr>JobID = zero_id, Product = ProductCoffee, JobStarted = 0, JobReady = 10,
            JobRetrieved = None\<rparr>"

definition machine_zero :: Machine where
  "machine_zero = \<lparr>state = StateAvailable, jobs = [zero_id \<mapsto> zero_job\<lparr>JobRetrieved := Some 10\<rparr>],
     history = [zero_id], currentJob = ''''\<rparr>"

definition zero_trace :: "event list" where
  "zero_trace = [EvStart ProductCoffee '''' 0 10 (Inr zero_bytes), EvRetrieve zero_id 10 10]"

definition Status_after :: "event list \<Rightarrow> MachineState option" where
  "Status_after es =
     (case exec NewWorld es of Some w \<Rightarrow> Some (Status (machine w)) | None \<Rightarrow> None)"

section \<open>Lemmas on identifier generation\<close>

lemma version_nibble: "drop_bit 4 ((x AND 0x0f) OR 0x40 :: 8 word) = 4"
  by (simp add: drop_bit_or drop_bit_and)

lemma and3_cases: "(y :: 8 word) AND 3 \<in> {0, 1, 2, 3}"
proof -
  have "unat (y AND 3) \<le> unat (3 :: 8 word)"
    by (rule word_and_le1 [THEN word_le_nat_alt [THEN iffD1]])
  then have "unat (y AND 3) \<in> {0, 1, 2, 3}"
    by auto
  then show ?thesis
    by (auto simp: word_unat_eq_iff)
qed

lemma variant_nibble: "drop_bit 4 ((x AND 0x3f) OR 0x80 :: 8 word) \<in> {8, 9, 10, 11}"
proof -
  have "drop_bit 4 ((x AND 0x3f) OR 0x80 :: 8 word) = (drop_bit 4 x AND 3) OR 8"
    by (simp add: drop_bit_or drop_bit_and)
  with and3_cases [of "drop_bit 4 x"] show ?thesis
    by auto
qed

lemma hexDigit_hex: "hexDigit n \<in> set ''0123456789abcdef''"
proof -
  have "n mod 16 < length ''0123456789abcdef''" by simp
  then show ?thesis unfolding hexDigit_def by (rule nth_mem)
qed

lemma hexDigit_4: "hexDigit (unat (4 :: 8 word)) = CHR ''4''"
  by (simp add: hexDigit_def)

lemma hexDigit_variant:
  "w \<in> {8, 9, 10, 11 :: 8 word} \<Longrightarrow> hexDigit (unat w) \<in> set ''89ab''"
  by (auto simp: hexDigit_def)

lemma length16:
  "length (b :: 'a list) = 16 \<Longrightarrow>
   \<exists>b0 b1 b2 b3 b4 b5 b6 b7 b8 b9 b10 b11 b12 b13 b14 b15.
     b = [b0, b1, b2, b3, b4, b5, b6, b7, b8, b9, b10, b11, b12, b13, b14, b15]"
  by (simp add: numeral_eq_Suc length_Suc_conv) blast

lemma isHex_hexDigit: "isHex (hexDigit n)"
  unfolding isHex_def by (rule hexDigit_hex)

lemma fmt02x_hex: "fmt02x b = [hexDigit (unat (drop_bit 4 b)), hexDigit (unat (b AND 0x0f))]"
  by (simp add: fmt02x_def)

lemma formatJobID_16:
  "formatJobID [b0, b1, b2, b3, b4, b5, b6, b7, b8, b9, b10, b11, b12, b13, b14, b15] =
     fmt02x b0 @ fmt02x b1 @ fmt02x b2 @ fmt02x b3 @ ''-'' @
     fmt02x b4 @ fmt02x b5 @ ''-'' @
     fmt02x b6 @ fmt02x b7 @ ''-'' @
     fmt02x b8 @ fmt02x b9 @ ''-'' @
     fmt02x b10 @ fmt02x b11 @ fmt02x b12 @ fmt02x b13 @ fmt02x b14 @ fmt02x b15"
  by (simp add: formatJobID_def)

lemma setVersionVariant_16:
  "setVersionVariant [b0, b1, b2, b3, b4, b5, b6, b7, b8, b9, b10, b11, b12, b13, b14, b15] =
     [b0, b1, b2, b3, b4, b5, (b6 AND 0x0f) OR 0x40, b7, (b8 AND 0x3f) OR 0x80, b9,
      b10, b11, b12, b13, b14, b15]"
  by (simp add: setVersionVariant_def Let_def)

lemma upt36:
  "[0..<36] = [0, 1, 2, 3, 4, 5, 6, 7, 8, 9, 10, 11, 12, 13, 14, 15, 16, 17, 18, 19, 20, 21,
               22, 23, 24, 25, 26, 27, 28, 29, 30, 31, 32, 33, 34, 35]"
  by code_simp

lemma isUUIDv4_chars:
  assumes "isHex c0" "isHex c1" "isHex stale_timer_no_transition" "isHex retrieve_protocol" "isHex c4" "isHex StartJob_unsupported_product" "isHex History_admission_order"
    "isHex c7" "isHex retrieved_not_before_ready" "isHex unretrieved_job_is_current" "isHex c11" "isHex c12" "isHex c15" "isHex c16"
    "isHex c17" "isHex c19" "isHex c20" "isHex c21" "isHex c22" "isHex c24" "isHex c25"
    "isHex c26" "isHex c27" "isHex c28" "isHex c29" "isHex c30" "isHex c31" "isHex c32"
    "isHex c33" "isHex c34" "isHex c35" "c19 \<in> set ''89ab''"
  shows "isUUIDv4 [c0, c1, stale_timer_no_transition, retrieve_protocol, c4, StartJob_unsupported_product, History_admission_order, c7, CHR ''-'', retrieved_not_before_ready, unretrieved_job_is_current, c11, c12, CHR ''-'',
                  CHR ''4'', c15, c16, c17, CHR ''-'', c19, c20, c21, c22, CHR ''-'',
                  c24, c25, c26, c27, c28, c29, c30, c31, c32, c33, c34, c35]"
proof -
  have h4: "isHex (CHR ''4'')"
    by (simp add: isHex_def)
  show ?thesis
    unfolding isUUIDv4_def using assms h4
    by (simp add: upt36)
qed

lemma formatJobID_nonempty: "formatJobID b \<noteq> []"
  by (simp add: formatJobID_def)

lemma generateJobID_nonempty: "generateJobID e = Inr i \<Longrightarrow> i \<noteq> []"
  by (auto simp: generateJobID_def formatJobID_nonempty split: sum.splits)

section \<open>The machine invariant\<close>

lemma inv_NewMachine: "inv_machine NewMachine"
  by (simp add: inv_machine_def NewMachine_def)

lemma StartJob_cases:
  "StartJob m p i now d e = (r, m') \<Longrightarrow>
     (r = Inl ErrUnsupportedProduct \<and> m' = m \<and> \<not> valid p) \<or>
     (r = Inl ErrMachineBusy \<and> m' = m \<and> valid p \<and> state m \<noteq> StateAvailable) \<or>
     (\<exists>err. r = Inl (ErrGenerateJobID err) \<and> m' = m \<and> valid p \<and> state m = StateAvailable
        \<and> i = '''' \<and> e = Inl err) \<or>
     (r = Inl ErrJobIDExists \<and> m' = m \<and> valid p \<and> state m = StateAvailable) \<or>
     (\<exists>jid. jid \<noteq> '''' \<and> jobs m jid = None \<and> valid p \<and> state m = StateAvailable \<and>
        (if i = '''' then generateJobID e = Inr jid else jid = i) \<and>
        r = Inr \<lparr>JobID = jid, Product = p, JobStarted = now, JobReady = now + d,
                 JobRetrieved = None\<rparr> \<and>
        m' = m\<lparr>jobs := (jobs m)(jid \<mapsto> \<lparr>JobID = jid, Product = p, JobStarted = now,
                   JobReady = now + d, JobRetrieved = None\<rparr>),
                history := history m @ [jid], currentJob := jid, state := StateBrewing\<rparr>)"
  by (auto simp: StartJob_def Let_def generateJobID_def formatJobID_nonempty
      split: if_splits sum.splits)

lemma StartJob_inv: "inv_machine m \<Longrightarrow> inv_machine (snd (StartJob m p i now d e))"
  using StartJob_cases [of m p i now d e "fst (StartJob m p i now d e)" "snd (StartJob m p i now d e)"]
  apply simp
  apply (elim disjE exE conjE)
  apply simp_all
  apply (auto simp: inv_machine_def)
  done

lemma RetrieveJob_cases:
  "RetrieveJob m i t1 t2 = (r, m') \<Longrightarrow>
     (r = Inl ErrJobNotFound \<and> m' = m \<and> jobs m i = None) \<or>
     (\<exists>j. r = Inl ErrJobAlreadyRetrieved \<and> m' = m \<and> jobs m i = Some j \<and> JobRetrieved j \<noteq> None) \<or>
     (\<exists>j. r = Inl ErrJobNotReady \<and> m' = m \<and> jobs m i = Some j \<and> JobRetrieved j = None
        \<and> t1 < JobReady j) \<or>
     (\<exists>j. jobs m i = Some j \<and> JobRetrieved j = None \<and> JobReady j \<le> t1 \<and>
        r = Inr (j\<lparr>JobRetrieved := Some t2\<rparr>) \<and>
        m' = (if currentJob m = i
              then m\<lparr>jobs := (jobs m)(i \<mapsto> j\<lparr>JobRetrieved := Some t2\<rparr>),
                     currentJob := '''', state := StateAvailable\<rparr>
              else m\<lparr>jobs := (jobs m)(i \<mapsto> j\<lparr>JobRetrieved := Some t2\<rparr>)\<rparr>))"
  by (auto simp: RetrieveJob_def Let_def split: option.splits if_splits)

lemma RetrieveJob_inv: "inv_machine m \<Longrightarrow> inv_machine (snd (RetrieveJob m i t1 t2))"
  using RetrieveJob_cases [of m i t1 t2 "fst (RetrieveJob m i t1 t2)" "snd (RetrieveJob m i t1 t2)"]
  apply simp
  apply (elim disjE exE conjE)
  apply simp_all
  apply (auto simp: inv_machine_def)
  done

lemma awaitCompletion_inv: "inv_machine m \<Longrightarrow> inv_machine (awaitCompletion m i)"
  by (auto simp: awaitCompletion_def inv_machine_def split: option.splits)

lemma do_event_inv: "inv_machine m \<Longrightarrow> inv_machine (do_event m e)"
  by (cases e) (simp_all add: StartJob_inv RetrieveJob_inv awaitCompletion_inv)

lemma run_inv: "inv_machine m \<Longrightarrow> inv_machine (run m es)"
  by (induction es arbitrary: m) (simp_all add: do_event_inv)

lemma run_append: "run m (es @ es') = run (run m es) es'"
  by (induction es arbitrary: m) simp_all

lemma inv_machine_current:
  "inv_machine m \<Longrightarrow> jobs m i = Some j \<Longrightarrow> (JobRetrieved j = None \<longleftrightarrow> currentJob m = i)"
  unfolding inv_machine_def by blast

lemma inv_machine_available:
  "inv_machine m \<Longrightarrow> (state m = StateAvailable \<longleftrightarrow> currentJob m = '''')"
  unfolding inv_machine_def by blast

lemma inv_machine_noempty: "inv_machine m \<Longrightarrow> jobs m '''' = None"
  unfolding inv_machine_def by blast

lemma retrieved_do_event:
  "jobs m i = Some j \<Longrightarrow> JobRetrieved j \<noteq> None \<Longrightarrow>
   \<exists>j'. jobs (do_event m e) i = Some j' \<and> JobRetrieved j' \<noteq> None"
proof (cases e)
  case (EvStart p k now d en)
  assume "jobs m i = Some j" "JobRetrieved j \<noteq> None"
  with EvStart show ?thesis
    using StartJob_cases [of m p k now d en "fst (StartJob m p k now d en)"
        "snd (StartJob m p k now d en)"]
    by auto
next
  case (EvRetrieve k t1 t2)
  assume "jobs m i = Some j" "JobRetrieved j \<noteq> None"
  with EvRetrieve show ?thesis
    using RetrieveJob_cases [of m k t1 t2 "fst (RetrieveJob m k t1 t2)"
        "snd (RetrieveJob m k t1 t2)"]
    by auto
next
  case (EvTimer k t)
  assume "jobs m i = Some j" "JobRetrieved j \<noteq> None"
  with EvTimer show ?thesis
    by (auto simp: awaitCompletion_def split: option.splits)
qed

lemma retrieved_run:
  "jobs m i = Some j \<Longrightarrow> JobRetrieved j \<noteq> None \<Longrightarrow>
   \<exists>j'. jobs (run m es) i = Some j' \<and> JobRetrieved j' \<noteq> None"
proof (induction es arbitrary: m j)
  case Nil
  then show ?case by simp
next
  case (Cons e es)
  from retrieved_do_event [OF Cons.prems, of e]
  obtain j' where "jobs (do_event m e) i = Some j'" "JobRetrieved j' \<noteq> None"
    by blast
  from Cons.IH [OF this] show ?case by simp
qed

lemma awaitCompletion_retrieved:
  "jobs m i = Some j \<Longrightarrow> JobRetrieved j \<noteq> None \<Longrightarrow> awaitCompletion m i = m"
  by (auto simp: awaitCompletion_def)

lemma RetrieveJob_success_retrieved:
  "RetrieveJob m i t1 t2 = (Inr job, m1) \<Longrightarrow>
   jobs m1 i = Some job \<and> JobRetrieved job = Some t2"
  by (drule RetrieveJob_cases) auto

lemma History_loop_upd_other:
  "k \<notin> set ids \<Longrightarrow> History_loop (js(k \<mapsto> v)) ids = History_loop js ids"
  by (induction ids) (auto split: option.splits)

lemma History_loop_append:
  "History_loop js (ids @ ids') = History_loop js ids @ History_loop js ids'"
  by (induction ids) (auto split: option.splits)

lemma History_loop_retrieve:
  "js k = Some j \<Longrightarrow>
   map unretrieved (History_loop (js(k \<mapsto> j\<lparr>JobRetrieved := r\<rparr>)) ids) =
   map unretrieved (History_loop js ids)"
  by (induction ids) (auto simp: unretrieved_def split: option.splits)

lemma History_loop_length:
  "set ids \<subseteq> dom js \<Longrightarrow> length (History_loop js ids) = length ids"
  by (induction ids) (auto split: option.splits)

lemma History_StartJob:
  assumes "inv_machine m" and "StartJob m p i now d e = (r, m')"
  shows "map unretrieved (History m') =
         map unretrieved (History m) @ (case r of Inr job \<Rightarrow> [job] | Inl err \<Rightarrow> [])"
proof -
  have "set (history m) = dom (jobs m)"
    using assms(1) by (simp add: inv_machine_def)
  then have "k \<notin> set (history m)" if "jobs m k = None" for k
    using that by auto
  then show ?thesis
    using StartJob_cases [OF assms(2)]
    by (auto simp: History_def History_loop_append History_loop_upd_other unretrieved_def)
qed

lemma History_RetrieveJob:
  "map unretrieved (History (snd (RetrieveJob m i t1 t2))) = map unretrieved (History m)"
  using RetrieveJob_cases [of m i t1 t2 "fst (RetrieveJob m i t1 t2)" "snd (RetrieveJob m i t1 t2)"]
  by (auto simp: History_def History_loop_retrieve)

lemma History_awaitCompletion: "History (awaitCompletion m i) = History m"
  by (simp add: History_def awaitCompletion_def split: option.splits)

lemma History_run:
  "inv_machine m \<Longrightarrow>
   map unretrieved (History (run m es)) = map unretrieved (History m) @ admitted m es"
proof (induction es arbitrary: m)
  case Nil
  then show ?case by simp
next
  case (Cons e es)
  have inv': "inv_machine (do_event m e)"
    using Cons.prems by (rule do_event_inv)
  show ?case
  proof (cases e)
    case (EvStart p i now d en)
    have "map unretrieved (History (do_event m e)) =
          map unretrieved (History m) @
            (case fst (StartJob m p i now d en) of Inr job \<Rightarrow> [job] | Inl err \<Rightarrow> [])"
      using History_StartJob [OF Cons.prems, of p i now d en] EvStart
      by (simp add: prod_eq_iff)
    with Cons.IH [OF inv'] EvStart show ?thesis by simp
  next
    case (EvRetrieve i t1 t2)
    with Cons.IH [OF inv'] show ?thesis
      by (simp add: History_RetrieveJob)
  next
    case (EvTimer i t)
    with Cons.IH [OF inv'] show ?thesis
      by (simp add: History_awaitCompletion)
  qed
qed

lemma History_loop_ids:
  "(\<And>i. i \<in> set ids \<Longrightarrow> \<exists>j. js i = Some j \<and> JobID j = i) \<Longrightarrow>
   map JobID (History_loop js ids) = ids"
proof (induction ids)
  case Nil
  then show ?case by simp
next
  case (Cons i ids)
  from Cons.prems [of i] obtain j where "js i = Some j" "JobID j = i"
    by auto
  moreover have "map JobID (History_loop js ids) = ids"
    using Cons.prems by (intro Cons.IH) simp
  ultimately show ?case by simp
qed

lemma History_ids: "inv_machine m \<Longrightarrow> map JobID (History m) = history m"
  unfolding History_def
  by (rule History_loop_ids) (auto simp: inv_machine_def dom_def)

lemma admitted_ids:
  assumes "run NewMachine es = m"
  shows "map JobID (admitted NewMachine es) = history m"
proof -
  have inv: "inv_machine m"
    using assms run_inv [OF inv_NewMachine] by blast
  have "map unretrieved (History m) = admitted NewMachine es"
    using History_run [OF inv_NewMachine, of es] assms
    by (simp add: History_def NewMachine_def)
  then have "map JobID (admitted NewMachine es) = map JobID (map unretrieved (History m))"
    by simp
  also have "\<dots> = map JobID (History m)"
    by (simp add: unretrieved_def comp_def)
  finally show ?thesis
    by (simp add: History_ids [OF inv])
qed

lemma generateJobID_uuid4:
  assumes "length b = 16"
  shows "isUUIDv4 (formatJobID (setVersionVariant b))"
proof -
  from length16 [OF assms] obtain b0 b1 b2 b3 b4 b5 b6 b7 b8 b9 b10 b11 b12 b13 b14 b15
    where b: "b = [b0, b1, b2, b3, b4, b5, b6, b7, b8, b9, b10, b11, b12, b13, b14, b15]"
    by blast
  have v: "hexDigit (unat (drop_bit 4 ((b6 AND 0x0f) OR 0x40))) = CHR ''4''"
    by (simp only: version_nibble hexDigit_4)
  have r: "hexDigit (unat (drop_bit 4 ((b8 AND 0x3f) OR 0x80))) \<in> set ''89ab''"
    using variant_nibble [of b8] by (rule hexDigit_variant)
  show ?thesis
    unfolding b setVersionVariant_16 formatJobID_16 fmt02x_hex append.simps v
    by (rule isUUIDv4_chars) (simp_all only: isHex_hexDigit r)
qed

lemma machine_after: "machine (after w e) = do_event (machine w) e"
  by (cases e) (auto split: prod.splits sum.splits)

lemma exec_run: "exec w es = Some w' \<Longrightarrow> machine w' = run (machine w) es"
  by (induction es arbitrary: w) (auto simp: machine_after split: if_splits)

lemma clock_after: "enabled w e \<Longrightarrow> clock w \<le> clock (after w e)"
  by (cases e) (auto split: prod.splits sum.splits)

lemma exec_clock: "exec w es = Some w' \<Longrightarrow> clock w \<le> clock w'"
proof (induction es arbitrary: w)
  case Nil
  then show ?case by simp
next
  case (Cons e es)
  then have en: "enabled w e" and ex: "exec (after w e) es = Some w'"
    by (auto split: if_splits)
  from clock_after [OF en] Cons.IH [OF ex] show ?case by simp
qed

lemma inv_NewWorld: "inv_world NewWorld"
  by (simp add: inv_world_def NewWorld_def inv_NewMachine) (simp add: NewMachine_def)

lemma woken_Some:
  "woken ts i t = Some p \<Longrightarrow> p \<in> set ts \<and> fst p = i \<and> snd p \<le> t"
  by (induction ts) (auto simp: woken_def split: if_splits)

lemma distinct_fst_remove1:
  "distinct (map fst ts) \<Longrightarrow> p \<in> set ts \<Longrightarrow>
   fst ` set (remove1 p ts) = fst ` set ts - {fst p}"
  by (induction ts) (auto simp: image_iff)

lemma distinct_map_remove1: "distinct (map f ts) \<Longrightarrow> distinct (map f (remove1 p ts))"
  by (induction ts) (auto simp: image_iff dest: notin_set_remove1)

lemma inv_worldI:
  assumes "inv_machine (machine w)"
      and "distinct (map fst (timers w))"
      and "\<And>i due. (i, due) \<in> set (timers w) \<Longrightarrow>
             \<exists>j. jobs (machine w) i = Some j \<and> JobReady j = due"
      and "\<And>i j r. jobs (machine w) i = Some j \<Longrightarrow> JobRetrieved j = Some r \<Longrightarrow>
             JobReady j \<le> r \<and> r \<le> clock w"
      and "\<And>i j. jobs (machine w) i = Some j \<Longrightarrow> JobRetrieved j = None \<Longrightarrow>
             (if pending w i then state (machine w) = StateBrewing
              else state (machine w) = StateBlocked \<and> JobReady j \<le> clock w)"
  shows "inv_world w"
  unfolding inv_world_def using assms by blast

lemma inv_world_timer_job:
  "inv_world w \<Longrightarrow> (i, due) \<in> set (timers w) \<Longrightarrow>
   \<exists>j. jobs (machine w) i = Some j \<and> JobReady j = due"
  unfolding inv_world_def by blast

lemma inv_world_retrieved:
  "inv_world w \<Longrightarrow> jobs (machine w) i = Some j \<Longrightarrow> JobRetrieved j = Some r \<Longrightarrow>
   JobReady j \<le> r \<and> r \<le> clock w"
  unfolding inv_world_def by blast

lemma inv_world_unretrieved:
  "inv_world w \<Longrightarrow> jobs (machine w) i = Some j \<Longrightarrow> JobRetrieved j = None \<Longrightarrow>
   (if pending w i then state (machine w) = StateBrewing
    else state (machine w) = StateBlocked \<and> JobReady j \<le> clock w)"
  unfolding inv_world_def by blast

lemma inv_world_machine: "inv_world w \<Longrightarrow> inv_machine (machine w)"
  unfolding inv_world_def by blast

lemma inv_world_distinct: "inv_world w \<Longrightarrow> distinct (map fst (timers w))"
  unfolding inv_world_def by blast

lemma inv_world_advance:
  assumes inv: "inv_world w" and t: "clock w \<le> t"
  shows "inv_world \<lparr>machine = machine w, clock = t, timers = timers w\<rparr>"
proof (rule inv_worldI)
  fix i j r
  assume "jobs (machine \<lparr>machine = machine w, clock = t, timers = timers w\<rparr>) i = Some j"
    and "JobRetrieved j = Some r"
  with inv_world_retrieved [OF inv, of i j r] t
  show "JobReady j \<le> r \<and> r \<le> clock \<lparr>machine = machine w, clock = t, timers = timers w\<rparr>"
    by simp
next
  fix i j
  assume "jobs (machine \<lparr>machine = machine w, clock = t, timers = timers w\<rparr>) i = Some j"
    and "JobRetrieved j = None"
  with inv_world_unretrieved [OF inv, of i j] t
  show "if pending \<lparr>machine = machine w, clock = t, timers = timers w\<rparr> i
        then state (machine \<lparr>machine = machine w, clock = t, timers = timers w\<rparr>) = StateBrewing
        else state (machine \<lparr>machine = machine w, clock = t, timers = timers w\<rparr>) = StateBlocked \<and>
             JobReady j \<le> clock \<lparr>machine = machine w, clock = t, timers = timers w\<rparr>"
    by (simp add: pending_def split: if_splits)
qed (use inv in \<open>simp_all add: inv_world_machine inv_world_distinct inv_world_timer_job\<close>)

lemma after_StartJob_inv:
  assumes inv: "inv_world w" and en: "clock w \<le> now"
  shows "inv_world (after w (EvStart p i now d e))"
proof -
  obtain r m' where s: "StartJob (machine w) p i now d e = (r, m')"
    by (cases "StartJob (machine w) p i now d e") blast
  have im: "inv_machine (machine w)"
    using inv by (rule inv_world_machine)
  have im': "inv_machine m'"
    using StartJob_inv [OF im, of p i now d e] s by simp
  from StartJob_cases [OF s] show ?thesis
  proof (elim disjE exE conjE)
    fix jid
    assume jid: "jid \<noteq> ''''" "jobs (machine w) jid = None" "state (machine w) = StateAvailable"
      and r: "r = Inr \<lparr>JobID = jid, Product = p, JobStarted = now, JobReady = now + d,
                 JobRetrieved = None\<rparr>"
      and m': "m' = (machine w)\<lparr>jobs := (jobs (machine w))(jid \<mapsto> \<lparr>JobID = jid, Product = p,
                 JobStarted = now, JobReady = now + d, JobRetrieved = None\<rparr>),
                history := history (machine w) @ [jid], currentJob := jid,
                state := StateBrewing\<rparr>"
    define w' where "w' = \<lparr>machine = m', clock = now, timers = timers w @ [(jid, now + d)]\<rparr>"
    have aft: "after w (EvStart p i now d e) = w'"
      using s r by (simp add: w'_def)
    have sel: "machine w' = m'" "clock w' = now" "timers w' = timers w @ [(jid, now + d)]"
      by (simp_all add: w'_def)
    have jobs': "jobs m' k = (if k = jid then Some \<lparr>JobID = jid, Product = p,
                 JobStarted = now, JobReady = now + d, JobRetrieved = None\<rparr>
                 else jobs (machine w) k)" for k
      by (simp add: m')
    have st': "state m' = StateBrewing"
      by (simp add: m')
    have allret: "JobRetrieved j \<noteq> None" if "jobs (machine w) k = Some j" for k j
      using inv_machine_current [OF im that] inv_machine_available [OF im] jid(3)
        inv_machine_noempty [OF im] that by auto
    have nopend: "jid \<notin> fst ` set (timers w)"
    proof
      assume "jid \<in> fst ` set (timers w)"
      then obtain due where "(jid, due) \<in> set (timers w)" by auto
      from inv_world_timer_job [OF inv this] jid(2) show False by simp
    qed
    have "inv_world w'"
    proof (rule inv_worldI)
      show "inv_machine (machine w')"
        using im' by (simp add: sel)
      show "distinct (map fst (timers w'))"
        using inv_world_distinct [OF inv] nopend by (simp add: sel)
    next
      fix k due
      assume "(k, due) \<in> set (timers w')"
      then consider "k = jid" "due = now + d" | "(k, due) \<in> set (timers w)"
        by (auto simp: sel)
      then show "\<exists>j. jobs (machine w') k = Some j \<and> JobReady j = due"
      proof cases
        case 1
        then show ?thesis by (simp add: sel jobs')
      next
        case 2
        from inv_world_timer_job [OF inv 2] jid(2) show ?thesis
          by (auto simp: sel jobs')
      qed
    next
      fix k j r'
      assume "jobs (machine w') k = Some j" "JobRetrieved j = Some r'"
      then have "jobs (machine w) k = Some j"
        by (auto simp: sel jobs' split: if_splits)
      from inv_world_retrieved [OF inv this \<open>JobRetrieved j = Some r'\<close>] en
      show "JobReady j \<le> r' \<and> r' \<le> clock w'"
        by (simp add: sel)
    next
      fix k j
      assume a: "jobs (machine w') k = Some j" "JobRetrieved j = None"
      have "k = jid"
      proof (rule ccontr)
        assume "k \<noteq> jid"
        with a(1) have "jobs (machine w) k = Some j"
          by (simp add: sel jobs')
        from allret [OF this] a(2) show False by simp
      qed
      then show "if pending w' k then state (machine w') = StateBrewing
                 else state (machine w') = StateBlocked \<and> JobReady j \<le> clock w'"
        by (simp add: pending_def sel st')
    qed
    then show ?thesis by (simp only: aft)
  qed (use s inv en in \<open>simp_all add: inv_world_advance\<close>)
qed

lemma after_RetrieveJob_inv:
  assumes inv: "inv_world w" and en: "clock w \<le> t1" "t1 \<le> t2"
  shows "inv_world (after w (EvRetrieve i t1 t2))"
proof -
  obtain r m' where s: "RetrieveJob (machine w) i t1 t2 = (r, m')"
    by (cases "RetrieveJob (machine w) i t1 t2") blast
  have im: "inv_machine (machine w)"
    using inv by (rule inv_world_machine)
  have im': "inv_machine m'"
    using RetrieveJob_inv [OF im, of i t1 t2] s by simp
  have aft: "after w (EvRetrieve i t1 t2) = \<lparr>machine = m', clock = t2, timers = timers w\<rparr>"
    using s by simp
  from en have t2: "clock w \<le> t2" by simp
  from RetrieveJob_cases [OF s] show ?thesis
  proof (elim disjE exE conjE)
    fix j
    assume j: "jobs (machine w) i = Some j" "JobRetrieved j = None" "JobReady j \<le> t1"
      and m': "m' = (if currentJob (machine w) = i
              then (machine w)\<lparr>jobs := (jobs (machine w))(i \<mapsto> j\<lparr>JobRetrieved := Some t2\<rparr>),
                     currentJob := '''', state := StateAvailable\<rparr>
              else (machine w)\<lparr>jobs := (jobs (machine w))(i \<mapsto> j\<lparr>JobRetrieved := Some t2\<rparr>)\<rparr>)"
    define w' where "w' = \<lparr>machine = m', clock = t2, timers = timers w\<rparr>"
    have sel: "machine w' = m'" "clock w' = t2" "timers w' = timers w"
      by (simp_all add: w'_def)
    have cur: "currentJob (machine w) = i"
      using inv_machine_current [OF im j(1)] j(2) by simp
    have jobs': "jobs m' k = (if k = i then Some (j\<lparr>JobRetrieved := Some t2\<rparr>)
                              else jobs (machine w) k)" for k
      by (simp add: m' cur)
    have others: "JobRetrieved j' \<noteq> None" if "jobs (machine w) k = Some j'" "k \<noteq> i" for k j'
      using inv_machine_current [OF im that(1)] that(2) cur by simp
    have "inv_world w'"
    proof (rule inv_worldI)
      show "inv_machine (machine w')"
        using im' by (simp add: sel)
      show "distinct (map fst (timers w'))"
        using inv_world_distinct [OF inv] by (simp add: sel)
    next
      fix k due
      assume "(k, due) \<in> set (timers w')"
      then have "(k, due) \<in> set (timers w)" by (simp add: sel)
      from inv_world_timer_job [OF inv this] j(1)
      show "\<exists>j. jobs (machine w') k = Some j \<and> JobReady j = due"
        by (auto simp: sel jobs')
    next
      fix k j' r'
      assume a: "jobs (machine w') k = Some j'" "JobRetrieved j' = Some r'"
      show "JobReady j' \<le> r' \<and> r' \<le> clock w'"
      proof (cases "k = i")
        case True
        with a j(3) en show ?thesis by (auto simp: sel jobs')
      next
        case False
        with a(1) have "jobs (machine w) k = Some j'" by (simp add: sel jobs')
        from inv_world_retrieved [OF inv this a(2)] t2 show ?thesis
          by (simp add: sel)
      qed
    next
      fix k j'
      assume a: "jobs (machine w') k = Some j'" "JobRetrieved j' = None"
      have "k \<noteq> i" using a by (auto simp: sel jobs')
      with a(1) have "jobs (machine w) k = Some j'" by (simp add: sel jobs')
      from others [OF this \<open>k \<noteq> i\<close>] a(2) have False by simp
      then show "if pending w' k then state (machine w') = StateBrewing
                 else state (machine w') = StateBlocked \<and> JobReady j' \<le> clock w'" ..
    qed
    then show ?thesis by (simp only: aft w'_def)
  qed (use aft inv t2 in \<open>simp_all add: inv_world_advance\<close>)
qed

lemma after_awaitCompletion_inv:
  assumes inv: "inv_world w" and en: "clock w \<le> t" "woken (timers w) i t \<noteq> None"
  shows "inv_world (after w (EvTimer i t))"
proof -
  from en(2) obtain p where p: "woken (timers w) i t = Some p" by blast
  from woken_Some [OF p] obtain due where
    due: "p = (i, due)" "(i, due) \<in> set (timers w)" "due \<le> t"
    by (cases p) auto
  from inv_world_timer_job [OF inv due(2)] obtain ji where
    ji: "jobs (machine w) i = Some ji" "JobReady ji = due" by blast
  have im: "inv_machine (machine w)"
    using inv by (rule inv_world_machine)
  define w' where "w' = \<lparr>machine = awaitCompletion (machine w) i, clock = t,
                          timers = remove1 (i, due) (timers w)\<rparr>"
  have aft: "after w (EvTimer i t) = w'"
    using p due(1) by (simp add: w'_def)
  have sel: "machine w' = awaitCompletion (machine w) i" "clock w' = t"
    "timers w' = remove1 (i, due) (timers w)"
    by (simp_all add: w'_def)
  have jobs': "jobs (awaitCompletion (machine w) i) = jobs (machine w)"
    by (simp add: awaitCompletion_def split: option.splits)
  have st': "state (awaitCompletion (machine w) i) =
             (if JobRetrieved ji = None then StateBlocked else state (machine w))"
    using ji(1) by (simp add: awaitCompletion_def)
  have pend': "pending w' k \<longleftrightarrow> pending w k \<and> k \<noteq> i" for k
    using distinct_fst_remove1 [OF inv_world_distinct [OF inv] due(2)]
    by (auto simp: pending_def sel)
  have "inv_world w'"
  proof (rule inv_worldI)
    show "inv_machine (machine w')"
      using awaitCompletion_inv [OF im] by (simp add: sel)
    show "distinct (map fst (timers w'))"
      using distinct_map_remove1 [OF inv_world_distinct [OF inv]] by (simp add: sel)
  next
    fix k due'
    assume "(k, due') \<in> set (timers w')"
    then have "(k, due') \<in> set (timers w)"
      using set_remove1_subset [of "(i, due)" "timers w"] by (auto simp: sel)
    from inv_world_timer_job [OF inv this]
    show "\<exists>j. jobs (machine w') k = Some j \<and> JobReady j = due'"
      by (simp add: sel jobs')
  next
    fix k j r
    assume "jobs (machine w') k = Some j" "JobRetrieved j = Some r"
    then have "jobs (machine w) k = Some j" by (simp add: sel jobs')
    from inv_world_retrieved [OF inv this \<open>JobRetrieved j = Some r\<close>] en(1)
    show "JobReady j \<le> r \<and> r \<le> clock w'"
      by (simp add: sel)
  next
    fix k j
    assume a: "jobs (machine w') k = Some j" "JobRetrieved j = None"
    then have k: "jobs (machine w) k = Some j" by (simp add: sel jobs')
    have cur: "currentJob (machine w) = k"
      using inv_machine_current [OF im k] a(2) by simp
    show "if pending w' k then state (machine w') = StateBrewing
          else state (machine w') = StateBlocked \<and> JobReady j \<le> clock w'"
    proof (cases "k = i")
      case True
      with k ji a(2) due(3) show ?thesis
        by (simp add: pend' sel st')
    next
      case False
      then have "JobRetrieved ji \<noteq> None"
        using inv_machine_current [OF im ji(1)] cur by simp
      with inv_world_unretrieved [OF inv k a(2)] False en(1) show ?thesis
        by (auto simp: pend' sel st' split: if_splits)
    qed
  qed
  then show ?thesis by (simp only: aft)
qed

lemma after_inv: "inv_world w \<Longrightarrow> enabled w e \<Longrightarrow> inv_world (after w e)"
  by (cases e) (simp_all add: after_StartJob_inv after_RetrieveJob_inv after_awaitCompletion_inv
      del: after.simps)

lemma exec_inv: "inv_world w \<Longrightarrow> exec w es = Some w' \<Longrightarrow> inv_world w'"
proof (induction es arbitrary: w)
  case Nil
  then show ?case by simp
next
  case (Cons e es)
  from Cons.prems(2) have en: "enabled w e" and ex: "exec (after w e) es = Some w'"
    by (auto split: if_splits)
  from Cons.IH [OF after_inv [OF Cons.prems(1) en] ex] show ?case .
qed

lemma exec_append:
  "exec w (es @ es') = (case exec w es of Some w1 \<Rightarrow> exec w1 es' | None \<Rightarrow> None)"
  by (induction es arbitrary: w) simp_all

section \<open>Evaluating the concrete runs\<close>

lemma gen_zero: "generateJobID (Inr zero_bytes) = Inr zero_id"
  by (simp add: generateJobID_def zero_bytes_def zero_id_def setVersionVariant_def
      formatJobID_def fmt02x_def hexDigit_def)

lemmas product_defs = ProductCoffee_def ProductStrongCoffee_def ProductCappuccino_def
  ProductCoffeeWithMilk_def ProductEspresso_def ProductEspressoChocolate_def
  ProductKakao_def ProductHotWater_def

lemma valid_simps [simp]: "valid ProductCoffee" "valid ProductKakao" "valid ProductEspresso"
  by (simp_all add: valid_def supportedProducts_def)

lemma start1: "StartJob NewMachine ProductCoffee ''job-1'' 0 10 (Inr zero_bytes) = (Inr job1, machine_brewing)"
  by (simp add: StartJob_def Let_def NewMachine_def job1_def machine_brewing_def)

lemma timer1: "awaitCompletion machine_brewing ''job-1'' = machine_blocked"
  by (simp add: awaitCompletion_def machine_brewing_def machine_blocked_def job1_def)

lemma retr1: "RetrieveJob machine_blocked ''job-1'' 20 21 = (Inr (job1\<lparr>JobRetrieved := Some 21\<rparr>), machine_done)"
  by (simp add: RetrieveJob_def Let_def machine_brewing_def machine_blocked_def machine_done_def job1_def)

lemma exec_brewing:
  "exec NewWorld [EvStart ProductCoffee ''job-1'' 0 10 (Inr zero_bytes)] = Some world_brewing"
  by (simp add: NewWorld_def world_brewing_def start1 job1_def)

lemma exec_blocked:
  "exec NewWorld [EvStart ProductCoffee ''job-1'' 0 10 (Inr zero_bytes), EvTimer ''job-1'' 15] =
     Some world_blocked"
  by (simp add: NewWorld_def world_blocked_def start1 timer1 woken_def job1_def)

lemma exec_done:
  "exec NewWorld happy_trace = Some world_done"
  by (simp add: happy_trace_def NewWorld_def world_done_def start1 timer1 retr1 woken_def job1_def)

lemma jobs_brewing: "jobs machine_brewing ''job-1'' = Some job1"
  by (simp add: machine_brewing_def)

lemma jobs_blocked: "jobs machine_blocked ''job-1'' = Some job1"
  by (simp add: machine_blocked_def machine_brewing_def)

lemma jobs_done: "jobs machine_done ''job-1'' = Some (job1\<lparr>JobRetrieved := Some 21\<rparr>)"
  by (simp add: machine_done_def)

lemma run_brewing:
  "run NewMachine [EvStart ProductCoffee ''job-1'' 0 10 (Inr zero_bytes)] = machine_brewing"
  by (simp add: start1)

lemma run_blocked:
  "run NewMachine [EvStart ProductCoffee ''job-1'' 0 10 (Inr zero_bytes), EvTimer ''job-1'' 15] =
     machine_blocked"
  by (simp add: start1 timer1)

lemma retr_race:
  "RetrieveJob machine_brewing ''job-1'' 10 10 = (Inr (job1\<lparr>JobRetrieved := Some 10\<rparr>), machine_race)"
  by (simp add: RetrieveJob_def Let_def machine_brewing_def machine_race_def job1_def)

lemma start_kakao:
  "StartJob NewMachine ProductKakao ''job-1'' 0 30 (Inr zero_bytes) = (Inr kakao1, machine_kakao)"
  by (simp add: StartJob_def Let_def NewMachine_def kakao1_def machine_kakao_def)

lemma exec_race2:
  "exec NewWorld [EvStart ProductCoffee ''job-1'' 0 10 (Inr zero_bytes), EvRetrieve ''job-1'' 10 10] =
     Some \<lparr>machine = machine_race, clock = 10, timers = [(''job-1'', 10)]\<rparr>"
  by (simp add: NewWorld_def start1 retr_race job1_def)

lemma timer_race: "awaitCompletion machine_race ''job-1'' = machine_race"
  by (simp add: awaitCompletion_def machine_race_def)

lemma exec_race3:
  "exec NewWorld [EvStart ProductCoffee ''job-1'' 0 10 (Inr zero_bytes), EvRetrieve ''job-1'' 10 10,
                  EvTimer ''job-1'' 11] =
     Some \<lparr>machine = machine_race, clock = 11, timers = []\<rparr>"
  by (simp add: NewWorld_def start1 retr_race timer_race woken_def job1_def)

lemma retr_other:
  "RetrieveJob machine_brewing ''job-0'' 20 20 = (Inl ErrJobNotFound, machine_brewing)"
  by (simp add: RetrieveJob_def machine_brewing_def)

lemma exec_late:
  "exec NewWorld [EvStart ProductCoffee ''job-1'' 0 10 (Inr zero_bytes), EvRetrieve ''job-0'' 20 20] =
     Some \<lparr>machine = machine_brewing, clock = 20, timers = [(''job-1'', 10)]\<rparr>"
  by (simp add: NewWorld_def start1 retr_other job1_def)

lemma start2:
  "StartJob machine_done ProductKakao ''job-2'' 30 30 (Inr zero_bytes) = (Inr job2, machine_two)"
  by (simp add: StartJob_def Let_def machine_done_def machine_two_def job2_def)

lemma start3:
  "StartJob machine_two ProductEspresso ''job-3'' 31 30 (Inr zero_bytes) =
     (Inl ErrMachineBusy, machine_two)"
  by (simp add: StartJob_def machine_two_def)

lemma run_two: "run NewMachine two_trace = machine_two"
  by (simp add: two_trace_def happy_trace_def start1 timer1 retr1 start2 start3)

lemma admitted_two: "admitted NewMachine two_trace = [job1, job2]"
  by (simp add: two_trace_def happy_trace_def start1 timer1 retr1 start2 start3)

lemma start_zero:
  "StartJob NewMachine ProductCoffee '''' 0 10 (Inr zero_bytes) =
     (Inr zero_job,
      \<lparr>state = StateBrewing, jobs = [zero_id \<mapsto> zero_job], history = [zero_id],
       currentJob = zero_id\<rparr>)"
  by (simp add: StartJob_def Let_def NewMachine_def gen_zero zero_job_def)

lemma retr_zero:
  "RetrieveJob \<lparr>state = StateBrewing, jobs = [zero_id \<mapsto> zero_job], history = [zero_id],
       currentJob = zero_id\<rparr> zero_id 10 10 =
     (Inr (zero_job\<lparr>JobRetrieved := Some 10\<rparr>), machine_zero)"
  by (simp add: RetrieveJob_def Let_def machine_zero_def zero_job_def)

lemma run_zero: "run NewMachine zero_trace = machine_zero"
  by (simp add: zero_trace_def start_zero retr_zero)

lemma admitted_zero: "admitted NewMachine zero_trace = [zero_job]"
  by (simp add: zero_trace_def start_zero retr_zero)

section \<open>Unsupported products\<close>

text \<open>
  C5. For a product outside the eight supported ones, \<open>StartJob\<close> fails with
  \<open>ErrUnsupportedProduct\<close> whatever the identifier and the other inputs are, and the
  machine after the call is the machine before it: the same status, the same jobs, and
  a history of the same length.
\<close>

theorem StartJob_unsupported_product:
  assumes "p \<notin> {ProductCoffee, ProductStrongCoffee, ProductCappuccino, ProductCoffeeWithMilk,
                 ProductEspresso, ProductEspressoChocolate, ProductKakao, ProductHotWater}"
  shows "StartJob m p jobID now d entropy = (Inl ErrUnsupportedProduct, m) \<and>
         Status (snd (StartJob m p jobID now d entropy)) = Status m \<and>
         jobs (snd (StartJob m p jobID now d entropy)) = jobs m \<and>
         length (History (snd (StartJob m p jobID now d entropy))) = length (History m)"
  using assms by (simp add: StartJob_def valid_def supportedProducts_def)

text \<open>The product \<open>INVALID\<close> of the repository's test, at a busy and at a new machine.\<close>

theorem StartJob_unsupported_product_witness:
  "StartJob machine_brewing ''INVALID'' '''' 5 30 (Inr zero_bytes) =
     (Inl ErrUnsupportedProduct, machine_brewing) \<and>
   StartJob NewMachine ''INVALID'' ''job-9'' 0 30 (Inr zero_bytes) =
     (Inl ErrUnsupportedProduct, NewMachine)"
  using StartJob_unsupported_product [of "''INVALID''" machine_brewing "''''" 5 30 "Inr zero_bytes"]
    StartJob_unsupported_product [of "''INVALID''" NewMachine "''job-9''" 0 30 "Inr zero_bytes"]
  by (simp add: product_defs)

section \<open>Failure of the entropy source\<close>

text \<open>
  C8. When no identifier is supplied and the entropy source fails, \<open>generateJobID\<close>
  returns the failure (wrapped) and no identifier; \<open>StartJob\<close> then returns an error
  and leaves the machine as it was, whatever its state and the product; and when the
  call reaches the generation of the identifier (supported product, machine available)
  the error it returns is that failure. There is no other way to an identifier in
  \<open>generateJobID\<close>.
\<close>

theorem entropy_failure_reported:
  "generateJobID (Inl err) = Inl (ErrGenerateJobID err) \<and>
   snd (StartJob m p '''' now d (Inl err)) = m \<and>
   (\<exists>e. fst (StartJob m p '''' now d (Inl err)) = Inl e) \<and>
   (valid p \<and> state m = StateAvailable \<longrightarrow>
      StartJob m p '''' now d (Inl err) = (Inl (ErrGenerateJobID err), m))"
  by (simp add: StartJob_def generateJobID_def)

text \<open>A failing entropy source at a new machine.\<close>

theorem entropy_failure_reported_witness:
  "StartJob NewMachine ProductCoffee '''' 0 10 (Inl ''entropy source failed'') =
     (Inl (ErrGenerateJobID ''entropy source failed''), NewMachine)"
  using entropy_failure_reported [of "''entropy source failed''" NewMachine ProductCoffee 0 10]
  by (simp add: NewMachine_def)

section \<open>A repeated identifier\<close>

text \<open>
  \<open>StartJob\<close> tests the state of the machine before it looks the identifier up. After
  a successful \<open>StartJob(KAKAO, "job-1")\<close> the machine is brewing, so the same call
  again fails with \<open>ErrMachineBusy\<close>, not with \<open>ErrJobIDExists\<close>.
\<close>

theorem duplicate_id_counterexample:
  "fst (StartJob NewMachine ProductKakao ''job-1'' 0 30 (Inr zero_bytes)) = Inr kakao1 \<and>
   jobs (snd (StartJob NewMachine ProductKakao ''job-1'' 0 30 (Inr zero_bytes))) ''job-1'' =
     Some kakao1 \<and>
   fst (StartJob (snd (StartJob NewMachine ProductKakao ''job-1'' 0 30 (Inr zero_bytes)))
          ProductKakao ''job-1'' 0 30 (Inr zero_bytes)) = Inl ErrMachineBusy \<and>
   fst (StartJob (snd (StartJob NewMachine ProductKakao ''job-1'' 0 30 (Inr zero_bytes)))
          ProductKakao ''job-1'' 0 30 (Inr zero_bytes)) \<noteq> Inl ErrJobIDExists"
  by (simp add: start_kakao) (simp add: StartJob_def machine_kakao_def)

text \<open>
  C4, as the code has it. After any successful \<open>StartJob\<close> the job is in the job set
  under its identifier, and a further \<open>StartJob\<close> with a supported product and that
  identifier fails with \<open>ErrMachineBusy\<close> and changes nothing. \<open>ErrJobIDExists\<close> is
  the answer to that identifier at any machine that is available and still holds the
  job, that is, once the job has been retrieved.
\<close>

theorem duplicate_id_while_brewing_is_busy:
  assumes "StartJob m p jobID now d e = (Inr job, m1)" and "valid p'"
  shows "jobs m1 (JobID job) = Some job \<and>
         StartJob m1 p' (JobID job) now' d' e' = (Inl ErrMachineBusy, m1) \<and>
         (state m2 = StateAvailable \<and> jobs m2 (JobID job) \<noteq> None \<longrightarrow>
            StartJob m2 p' (JobID job) now' d' e' = (Inl ErrJobIDExists, m2))"
proof -
  from StartJob_cases [OF assms(1)]
  have a: "JobID job \<noteq> ''''" "jobs m1 (JobID job) = Some job" "state m1 = StateBrewing"
    by auto
  from a(3) assms(2) have "StartJob m1 p' (JobID job) now' d' e' = (Inl ErrMachineBusy, m1)"
    by (simp add: StartJob_def)
  moreover have "StartJob m2 p' (JobID job) now' d' e' = (Inl ErrJobIDExists, m2)"
    if "state m2 = StateAvailable" "jobs m2 (JobID job) \<noteq> None"
    using that a(1) assms(2) by (auto simp: StartJob_def)
  ultimately show ?thesis using a(2) by blast
qed

text \<open>The two calls of the scenario, and the repeated identifier after the retrieval.\<close>

theorem duplicate_id_while_brewing_is_busy_witness:
  "StartJob NewMachine ProductKakao ''job-1'' 0 30 (Inr zero_bytes) = (Inr kakao1, machine_kakao) \<and>
   StartJob machine_kakao ProductKakao ''job-1'' 1 30 (Inr zero_bytes) =
     (Inl ErrMachineBusy, machine_kakao) \<and>
   StartJob machine_done ProductKakao ''job-1'' 40 30 (Inr zero_bytes) =
     (Inl ErrJobIDExists, machine_done)"
proof -
  have v: "valid ProductKakao" by simp
  have i: "JobID kakao1 = ''job-1''" by (simp add: kakao1_def)
  have d: "state machine_done = StateAvailable" "jobs machine_done ''job-1'' \<noteq> None"
    by (simp_all add: machine_done_def)
  from duplicate_id_while_brewing_is_busy [OF start_kakao v, of 1 30 "Inr zero_bytes" machine_done]
    duplicate_id_while_brewing_is_busy [OF start_kakao v, of 40 30 "Inr zero_bytes" machine_done] i d start_kakao
  show ?thesis by simp
qed

section \<open>Generated identifiers\<close>

text \<open>
  The identifier is a function of the sixteen bytes alone. When the entropy source
  delivers the bytes of an earlier call again, the generated identifier is the one that
  the earlier job carries, and \<open>StartJob\<close> fails with \<open>ErrJobIDExists\<close>.
\<close>

theorem generated_id_collision_counterexample:
  "map JobID (admitted NewMachine zero_trace) = [zero_id] \<and>
   generateJobID (Inr zero_bytes) = Inr zero_id \<and>
   fst (StartJob (run NewMachine zero_trace) ProductCoffee '''' 20 10 (Inr zero_bytes)) =
     Inl ErrJobIDExists"
  unfolding run_zero admitted_zero
  by (simp add: gen_zero zero_job_def StartJob_def machine_zero_def)

text \<open>
  C7, as the code has it. From the sixteen bytes that the entropy source delivers,
  \<open>generateJobID\<close> makes a version-4 identifier string (36 characters, hyphens at 8,
  13, 18, 23, hexadecimal digits elsewhere, version digit 4, variant digit 8, 9, a or
  b). When \<open>StartJob\<close> without an identifier succeeds, the job carries that string,
  and no job admitted earlier in the run carries it. When a job admitted earlier does
  carry the generated string, \<open>StartJob\<close> (supported product, machine available) fails
  with \<open>ErrJobIDExists\<close> and changes nothing.
\<close>

theorem generated_id_uuid4_fresh_on_success:
  assumes "length b = 16" and "run NewMachine es = m"
  shows "generateJobID (Inr b) = Inr (formatJobID (setVersionVariant b)) \<and>
         isUUIDv4 (formatJobID (setVersionVariant b)) \<and>
         (\<forall>job m'. StartJob m p '''' now d (Inr b) = (Inr job, m') \<longrightarrow>
            JobID job = formatJobID (setVersionVariant b) \<and>
            JobID job \<notin> JobID ` set (admitted NewMachine es)) \<and>
         (valid p \<and> state m = StateAvailable \<and>
          formatJobID (setVersionVariant b) \<in> JobID ` set (admitted NewMachine es) \<longrightarrow>
            StartJob m p '''' now d (Inr b) = (Inl ErrJobIDExists, m))"
proof -
  have inv: "inv_machine m"
    using assms(2) run_inv [OF inv_NewMachine] by blast
  have "set (map JobID (admitted NewMachine es)) = dom (jobs m)"
    using admitted_ids [OF assms(2)] inv by (simp add: inv_machine_def)
  then have ids: "JobID ` set (admitted NewMachine es) = dom (jobs m)"
    by simp
  have g: "generateJobID (Inr b) = Inr (formatJobID (setVersionVariant b))"
    by (simp add: generateJobID_def)
  have s: "JobID job = formatJobID (setVersionVariant b) \<and> JobID job \<notin> dom (jobs m)"
    if "StartJob m p '''' now d (Inr b) = (Inr job, m')" for job m'
    using StartJob_cases [OF that] g by auto
  have c: "StartJob m p '''' now d (Inr b) = (Inl ErrJobIDExists, m)"
    if "valid p" "state m = StateAvailable" "formatJobID (setVersionVariant b) \<in> dom (jobs m)"
    using that g by (auto simp: StartJob_def)
  from g generateJobID_uuid4 [OF assms(1)] s c show ?thesis
    unfolding ids by blast
qed

text \<open>Sixteen zero bytes, at a new machine and again after the first job was retrieved.\<close>

theorem generated_id_uuid4_fresh_on_success_witness:
  "length zero_bytes = 16 \<and>
   generateJobID (Inr zero_bytes) = Inr zero_id \<and>
   isUUIDv4 zero_id \<and>
   fst (StartJob NewMachine ProductCoffee '''' 0 10 (Inr zero_bytes)) = Inr zero_job \<and>
   JobID zero_job \<notin> JobID ` set (admitted NewMachine []) \<and>
   StartJob machine_zero ProductCoffee '''' 20 10 (Inr zero_bytes) =
     (Inl ErrJobIDExists, machine_zero)"
proof -
  have l: "length zero_bytes = 16"
    by (simp add: zero_bytes_def)
  have r0: "run NewMachine [] = NewMachine"
    by simp
  have g: "formatJobID (setVersionVariant zero_bytes) = zero_id"
    using gen_zero by (simp add: generateJobID_def)
  note first = generated_id_uuid4_fresh_on_success [OF l r0, of ProductCoffee 0 10, unfolded g]
  note again = generated_id_uuid4_fresh_on_success [OF l run_zero, of ProductCoffee 20 10, unfolded g admitted_zero]
  have u: "isUUIDv4 zero_id"
    using first by (rule conjunct2 [THEN conjunct1])
  have "\<forall>job m'. StartJob NewMachine ProductCoffee '''' 0 10 (Inr zero_bytes) = (Inr job, m') \<longrightarrow>
          JobID job = zero_id \<and> JobID job \<notin> JobID ` set (admitted NewMachine [])"
    using first by (rule conjunct2 [THEN conjunct2, THEN conjunct1])
  with start_zero have f: "JobID zero_job \<notin> JobID ` set (admitted NewMachine [])"
    by blast
  have "valid ProductCoffee \<and> state machine_zero = StateAvailable \<and>
        zero_id \<in> JobID ` set [zero_job]"
    by (simp add: machine_zero_def zero_job_def)
  with again have c: "StartJob machine_zero ProductCoffee '''' 20 10 (Inr zero_bytes) =
     (Inl ErrJobIDExists, machine_zero)"
    by blast
  have s: "fst (StartJob NewMachine ProductCoffee '''' 0 10 (Inr zero_bytes)) = Inr zero_job"
    by (simp add: start_zero)
  from l gen_zero u s f c show ?thesis
    by blast
qed

section \<open>The unretrieved job is the current job\<close>

text \<open>
  C10. In every state that a run reaches from the new machine, every job of the job
  set other than the current job has its retrieval time set; a job of the job set is
  unretrieved exactly when it is the current job; and therefore, for every identifier
  a timer can carry (none is empty), the guard of \<open>awaitCompletion\<close> decides as the
  check for the active job does: \<open>awaitCompletion\<close> and \<open>awaitCompletion_design\<close>
  return the same machine.
\<close>

theorem unretrieved_job_is_current:
  assumes "run NewMachine es = m"
  shows "(\<forall>i j. jobs m i = Some j \<and> i \<noteq> currentJob m \<longrightarrow> JobRetrieved j \<noteq> None) \<and>
         (\<forall>i j. jobs m i = Some j \<longrightarrow> (JobRetrieved j = None \<longleftrightarrow> currentJob m = i)) \<and>
         (\<forall>i. i \<noteq> '''' \<longrightarrow> awaitCompletion m i = awaitCompletion_design m i)"
proof -
  have inv: "inv_machine m"
    using assms run_inv [OF inv_NewMachine] by blast
  have a: "\<forall>i j. jobs m i = Some j \<longrightarrow> (JobRetrieved j = None \<longleftrightarrow> currentJob m = i)"
    using inv by (simp add: inv_machine_def)
  have b: "awaitCompletion m i = awaitCompletion_design m i" if "i \<noteq> ''''" for i
  proof (cases "jobs m i")
    case None
    with inv that have "currentJob m \<noteq> i"
      by (auto simp: inv_machine_def)
    with None show ?thesis
      by (simp add: awaitCompletion_def awaitCompletion_design_def)
  next
    case (Some j)
    with a show ?thesis
      by (simp add: awaitCompletion_def awaitCompletion_design_def)
  qed
  from a b show ?thesis by blast
qed

text \<open>The blocked machine of the test run.\<close>

theorem unretrieved_job_is_current_witness:
  "run NewMachine [EvStart ProductCoffee ''job-1'' 0 10 (Inr zero_bytes), EvTimer ''job-1'' 15] =
     machine_blocked \<and>
   jobs machine_blocked ''job-1'' = Some job1 \<and> JobRetrieved job1 = None \<and>
   currentJob machine_blocked = ''job-1'' \<and>
   awaitCompletion machine_blocked ''job-1'' = awaitCompletion_design machine_blocked ''job-1''"
proof -
  have u: "JobRetrieved job1 = None"
    by (simp add: job1_def)
  from unretrieved_job_is_current [OF run_blocked] jobs_blocked u run_blocked
  show ?thesis by auto
qed

section \<open>A timer that fires after the retrieval\<close>

text \<open>
  C2. Let a retrieval of a job succeed in a reachable state. Then the first clock
  reading of the retrieval was not before the job's ready time, the machine is
  available after it, and the timer of that job changes nothing, whether it fires
  directly after the retrieval or after any further events (further jobs included):
  \<open>awaitCompletion\<close> returns the machine it was given, and so does the check for
  the active job, \<open>awaitCompletion_design\<close>.
\<close>

theorem stale_timer_no_transition:
  assumes "run NewMachine es0 = m"
      and "RetrieveJob m jobID t1 t2 = (Inr job, m1)"
  shows "JobReady job \<le> t1 \<and> state m1 = StateAvailable \<and>
         awaitCompletion m1 jobID = m1 \<and>
         awaitCompletion (run m1 es) jobID = run m1 es \<and>
         awaitCompletion_design (run m1 es) jobID = run m1 es"
proof -
  have inv: "inv_machine m"
    using assms(1) run_inv [OF inv_NewMachine] by blast
  have inv1: "inv_machine m1"
    using RetrieveJob_inv [OF inv, of jobID t1 t2] assms(2) by simp
  have r: "jobs m1 jobID = Some job" "JobRetrieved job \<noteq> None"
    using RetrieveJob_success_retrieved [OF assms(2)] by simp_all
  have "JobReady job \<le> t1 \<and> state m1 = StateAvailable"
    using RetrieveJob_cases [OF assms(2)] inv by (auto simp: inv_machine_def)
  moreover have "awaitCompletion m1 jobID = m1"
    using r by (rule awaitCompletion_retrieved)
  moreover have "awaitCompletion (run m1 es) jobID = run m1 es"
    using retrieved_run [OF r, of es] by (auto simp: awaitCompletion_retrieved)
  moreover have "awaitCompletion_design (run m1 es) jobID = run m1 es"
  proof -
    from retrieved_run [OF r, of es] obtain j' where
      j': "jobs (run m1 es) jobID = Some j'" "JobRetrieved j' \<noteq> None"
      by blast
    from inv_machine_current [OF run_inv [OF inv1] j'(1)] j'(2)
    have "currentJob (run m1 es) \<noteq> jobID" by simp
    then show ?thesis by (simp add: awaitCompletion_design_def)
  qed
  ultimately show ?thesis by blast
qed

text \<open>
  The race: the retrieval at the ready time 10, before the timer; the timer then fires
  at an available machine, or after the next job has been admitted.
\<close>

theorem stale_timer_no_transition_witness:
  "run NewMachine [EvStart ProductCoffee ''job-1'' 0 10 (Inr zero_bytes)] = machine_brewing \<and>
   RetrieveJob machine_brewing ''job-1'' 10 10 =
     (Inr (job1\<lparr>JobRetrieved := Some 10\<rparr>), machine_race) \<and>
   state machine_race = StateAvailable \<and>
   awaitCompletion machine_race ''job-1'' = machine_race \<and>
   awaitCompletion (run machine_race [EvStart ProductKakao ''job-2'' 12 30 (Inr zero_bytes)])
     ''job-1'' =
   run machine_race [EvStart ProductKakao ''job-2'' 12 30 (Inr zero_bytes)]"
  using stale_timer_no_transition [OF run_brewing retr_race,
      of "[EvStart ProductKakao ''job-2'' 12 30 (Inr zero_bytes)]"]
    run_brewing retr_race
  by simp

section \<open>History\<close>

text \<open>
  C6. After any run from the new machine, \<open>History\<close> has one entry for each
  successful \<open>StartJob\<close> of the run, in the order of admission: the entries are the
  jobs those calls returned, up to the retrieval time, which is the only field that
  changes later. So the length is the number of successful admissions and the
  identifiers are theirs, in order, whatever was retrieved and whichever timer fired.
\<close>

theorem History_admission_order:
  assumes "run NewMachine es = m"
  shows "length (History m) = length (admitted NewMachine es) \<and>
         map JobID (History m) = map JobID (admitted NewMachine es) \<and>
         map unretrieved (History m) = admitted NewMachine es"
proof -
  have h: "map unretrieved (History m) = admitted NewMachine es"
    using History_run [OF inv_NewMachine, of es] assms
    by (simp add: History_def NewMachine_def)
  have "length (map unretrieved (History m)) = length (admitted NewMachine es)"
    by (simp only: h)
  then have "length (History m) = length (admitted NewMachine es)"
    by simp
  moreover have "map JobID (map unretrieved (History m)) = map JobID (admitted NewMachine es)"
    by (simp only: h)
  then have "map JobID (History m) = map JobID (admitted NewMachine es)"
    by (simp add: unretrieved_def comp_def)
  ultimately show ?thesis using h by simp
qed

text \<open>
  Two admitted jobs, the first retrieved, and a third \<open>StartJob\<close> that fails because
  the machine is busy.
\<close>

theorem History_admission_order_witness:
  "run NewMachine two_trace = machine_two \<and>
   admitted NewMachine two_trace = [job1, job2] \<and>
   History machine_two = [job1\<lparr>JobRetrieved := Some 21\<rparr>, job2] \<and>
   length (History machine_two) = 2 \<and>
   map JobID (History machine_two) = [''job-1'', ''job-2'']"
proof -
  have h: "History machine_two = [job1\<lparr>JobRetrieved := Some 21\<rparr>, job2]"
    by (simp add: History_def machine_two_def)
  from History_admission_order [OF run_two] run_two admitted_two h show ?thesis
    by (simp add: job1_def job2_def)
qed

section \<open>Retrieval time and ready time\<close>

text \<open>
  C9. In every world that a run with a clock reaches, a job whose retrieval time is set
  has it at or after its ready time.
\<close>

theorem retrieved_not_before_ready:
  assumes "exec NewWorld es = Some w"
      and "jobs (machine w) jobID = Some job"
      and "JobRetrieved job = Some r"
  shows "JobReady job \<le> r"
  using inv_world_retrieved [OF exec_inv [OF inv_NewWorld assms(1)] assms(2,3)] by simp

text \<open>The retrieved job of the test run: ready at 10, retrieved at 21.\<close>

theorem retrieved_not_before_ready_witness:
  "exec NewWorld happy_trace = Some world_done \<and>
   jobs (machine world_done) ''job-1'' = Some (job1\<lparr>JobRetrieved := Some 21\<rparr>) \<and>
   JobReady (job1\<lparr>JobRetrieved := Some 21\<rparr>) \<le> 21"
proof -
  have j3: "jobs (machine world_done) ''job-1'' = Some (job1\<lparr>JobRetrieved := Some 21\<rparr>)"
    by (simp add: world_done_def jobs_done)
  have r: "JobRetrieved (job1\<lparr>JobRetrieved := Some 21\<rparr>) = Some 21"
    by simp
  from retrieved_not_before_ready [OF exec_done j3 r] exec_done j3 show ?thesis by simp
qed

section \<open>The retrieval protocol\<close>

text \<open>
  C3. Let a job be in the job set of a reachable world, and let \<open>RetrieveJob\<close> be
  called for its identifier with clock readings \<open>t1 \<le> t2\<close> not before the world's
  clock. If \<open>t1\<close> is before the ready time the call fails with \<open>ErrJobNotReady\<close> and
  changes nothing. If \<open>t1\<close> is not before the ready time and the job has not been
  retrieved, the call returns the job with the retrieval time \<open>t2\<close> and stores it.
  If the job has been retrieved, the call fails with \<open>ErrJobAlreadyRetrieved\<close> and
  changes nothing, and so does every call for that identifier in every later world.
\<close>

theorem retrieve_protocol:
  assumes "exec NewWorld es = Some w"
      and "jobs (machine w) jobID = Some job"
      and "clock w \<le> t1" and "t1 \<le> t2"
  shows "(t1 < JobReady job \<longrightarrow>
            RetrieveJob (machine w) jobID t1 t2 = (Inl ErrJobNotReady, machine w)) \<and>
         (JobReady job \<le> t1 \<and> JobRetrieved job = None \<longrightarrow>
            fst (RetrieveJob (machine w) jobID t1 t2) = Inr (job\<lparr>JobRetrieved := Some t2\<rparr>) \<and>
            jobs (snd (RetrieveJob (machine w) jobID t1 t2)) jobID =
              Some (job\<lparr>JobRetrieved := Some t2\<rparr>)) \<and>
         (JobRetrieved job \<noteq> None \<longrightarrow>
            RetrieveJob (machine w) jobID t1 t2 = (Inl ErrJobAlreadyRetrieved, machine w) \<and>
            (\<forall>es' w' t1' t2'. exec w es' = Some w' \<longrightarrow>
               RetrieveJob (machine w') jobID t1' t2' =
                 (Inl ErrJobAlreadyRetrieved, machine w')))"
proof (intro conjI impI)
  assume early: "t1 < JobReady job"
  have "JobRetrieved job = None"
  proof (cases "JobRetrieved job")
    case (Some r)
    from inv_world_retrieved [OF exec_inv [OF inv_NewWorld assms(1)] assms(2) Some]
    have "JobReady job \<le> clock w" by simp
    with early assms(3) show ?thesis by simp
  qed simp
  with early assms(2) show "RetrieveJob (machine w) jobID t1 t2 = (Inl ErrJobNotReady, machine w)"
    by (simp add: RetrieveJob_def)
next
  assume "JobReady job \<le> t1 \<and> JobRetrieved job = None"
  with assms(2)
  show "fst (RetrieveJob (machine w) jobID t1 t2) = Inr (job\<lparr>JobRetrieved := Some t2\<rparr>)"
    and "jobs (snd (RetrieveJob (machine w) jobID t1 t2)) jobID =
          Some (job\<lparr>JobRetrieved := Some t2\<rparr>)"
    by (simp_all add: RetrieveJob_def Let_def)
next
  assume r: "JobRetrieved job \<noteq> None"
  with assms(2)
  show "RetrieveJob (machine w) jobID t1 t2 = (Inl ErrJobAlreadyRetrieved, machine w)"
    by (simp add: RetrieveJob_def)
  show "\<forall>es' w' t1' t2'. exec w es' = Some w' \<longrightarrow>
          RetrieveJob (machine w') jobID t1' t2' = (Inl ErrJobAlreadyRetrieved, machine w')"
  proof (intro allI impI)
    fix es' w' t1' t2'
    assume "exec w es' = Some w'"
    then have "machine w' = run (machine w) es'" by (rule exec_run)
    with retrieved_run [OF assms(2) r, of es']
    show "RetrieveJob (machine w') jobID t1' t2' = (Inl ErrJobAlreadyRetrieved, machine w')"
      by (auto simp: RetrieveJob_def)
  qed
qed

text \<open>Retrieval at 5 while brewing, at 20 when blocked, and at 30 after the retrieval.\<close>

theorem retrieve_protocol_witness:
  "RetrieveJob (machine world_brewing) ''job-1'' 5 6 = (Inl ErrJobNotReady, machine world_brewing) \<and>
   fst (RetrieveJob (machine world_blocked) ''job-1'' 20 21) = Inr (job1\<lparr>JobRetrieved := Some 21\<rparr>) \<and>
   RetrieveJob (machine world_done) ''job-1'' 30 31 =
     (Inl ErrJobAlreadyRetrieved, machine world_done)"
proof -
  have j1: "jobs (machine world_brewing) ''job-1'' = Some job1"
    by (simp add: world_brewing_def jobs_brewing)
  have j2: "jobs (machine world_blocked) ''job-1'' = Some job1"
    by (simp add: world_blocked_def jobs_blocked)
  have j3: "jobs (machine world_done) ''job-1'' = Some (job1\<lparr>JobRetrieved := Some 21\<rparr>)"
    by (simp add: world_done_def jobs_done)
  have u: "JobRetrieved job1 = None" "JobReady job1 = 10"
    by (simp_all add: job1_def)
  have c: "clock world_brewing \<le> 5" "clock world_blocked \<le> 20" "clock world_done \<le> 30"
    by (simp_all add: world_brewing_def world_blocked_def world_done_def)
  from retrieve_protocol [OF exec_brewing j1 c(1), of 6] retrieve_protocol [OF exec_blocked j2 c(2), of 21]
    retrieve_protocol [OF exec_done j3 c(3), of 31] u
  show ?thesis by simp
qed

section \<open>The status of the machine over the life of a job\<close>

text \<open>
  The status does not change at the ready time by itself. A job admitted at 0 and
  ready at 10 that is retrieved at 10, before its timer fires, takes the machine from
  brewing to available, and the timer at 11 leaves it available: the machine is never
  blocked. With no retrieval and a timer that has not fired yet, the machine is still
  brewing at 20. And \<open>StartJob\<close> with an unsupported product fails with
  \<open>ErrUnsupportedProduct\<close> at a brewing machine.
\<close>

theorem status_at_ready_counterexample:
  "Status_after [EvStart ProductCoffee ''job-1'' 0 10 (Inr zero_bytes)] = Some StateBrewing \<and>
   Status_after [EvStart ProductCoffee ''job-1'' 0 10 (Inr zero_bytes),
                 EvRetrieve ''job-1'' 10 10] = Some StateAvailable \<and>
   Status_after [EvStart ProductCoffee ''job-1'' 0 10 (Inr zero_bytes),
                 EvRetrieve ''job-1'' 10 10, EvTimer ''job-1'' 11] = Some StateAvailable \<and>
   Status_after [EvStart ProductCoffee ''job-1'' 0 10 (Inr zero_bytes),
                 EvRetrieve ''job-0'' 20 20] = Some StateBrewing \<and>
   fst (StartJob (snd (StartJob NewMachine ProductCoffee ''job-1'' 0 10 (Inr zero_bytes)))
          ''INVALID'' '''' 5 10 (Inr zero_bytes)) = Inl ErrUnsupportedProduct"
  unfolding Status_after_def exec_brewing exec_race2 exec_race3 exec_late start1
  by (simp add: Status_def world_brewing_def machine_brewing_def machine_race_def
      StartJob_def valid_def supportedProducts_def product_defs)

text \<open>
  C1, as the code has it. Let a job be in the job set of a reachable world. While it is
  unretrieved, the status is brewing as long as its timer sleeps and blocked once the
  timer has fired; the timer cannot fire before the ready time, so the status is
  brewing whenever the clock is before the ready time, and the ready time has passed
  whenever the status is blocked; every \<open>StartJob\<close> with a supported product fails
  with \<open>ErrMachineBusy\<close> and changes nothing; and a retrieval of the job at or after
  the ready time makes the machine available. When every job of the job set is
  retrieved, the machine is available.
\<close>

theorem status_follows_timer_and_retrieval:
  assumes "exec NewWorld es = Some w"
      and "jobs (machine w) jobID = Some job"
  shows "(JobRetrieved job = None \<longrightarrow>
            Status (machine w) = (if pending w jobID then StateBrewing else StateBlocked) \<and>
            (clock w < JobReady job \<longrightarrow> Status (machine w) = StateBrewing) \<and>
            (Status (machine w) = StateBlocked \<longrightarrow> JobReady job \<le> clock w) \<and>
            (\<forall>p i now d e. valid p \<longrightarrow>
               StartJob (machine w) p i now d e = (Inl ErrMachineBusy, machine w)) \<and>
            (\<forall>t1 t2. JobReady job \<le> t1 \<longrightarrow>
               Status (snd (RetrieveJob (machine w) jobID t1 t2)) = StateAvailable)) \<and>
         ((\<forall>i j. jobs (machine w) i = Some j \<longrightarrow> JobRetrieved j \<noteq> None) \<longrightarrow>
            Status (machine w) = StateAvailable)"
proof -
  have inv: "inv_world w"
    using exec_inv [OF inv_NewWorld assms(1)] .
  have im: "inv_machine (machine w)"
    using inv by (rule inv_world_machine)
  have a: "Status (machine w) = (if pending w jobID then StateBrewing else StateBlocked) \<and>
            (clock w < JobReady job \<longrightarrow> Status (machine w) = StateBrewing) \<and>
            (Status (machine w) = StateBlocked \<longrightarrow> JobReady job \<le> clock w) \<and>
            (\<forall>p i now d e. valid p \<longrightarrow>
               StartJob (machine w) p i now d e = (Inl ErrMachineBusy, machine w)) \<and>
            (\<forall>t1 t2. JobReady job \<le> t1 \<longrightarrow>
               Status (snd (RetrieveJob (machine w) jobID t1 t2)) = StateAvailable)"
    if un: "JobRetrieved job = None"
  proof -
    note u = inv_world_unretrieved [OF inv assms(2) un]
    have cur: "currentJob (machine w) = jobID"
      using inv_machine_current [OF im assms(2)] un by simp
    have s1: "Status (machine w) = (if pending w jobID then StateBrewing else StateBlocked)"
      using u by (simp add: Status_def split: if_splits)
    have s2: "clock w < JobReady job \<longrightarrow> Status (machine w) = StateBrewing"
      using u by (auto simp: Status_def split: if_splits)
    have s3: "Status (machine w) = StateBlocked \<longrightarrow> JobReady job \<le> clock w"
      using u by (auto simp: Status_def split: if_splits)
    have busy: "state (machine w) \<noteq> StateAvailable"
      using s1 by (simp add: Status_def split: if_splits)
    have s4: "\<forall>p i now d e. valid p \<longrightarrow>
               StartJob (machine w) p i now d e = (Inl ErrMachineBusy, machine w)"
      using busy by (simp add: StartJob_def)
    have s5: "\<forall>t1 t2. JobReady job \<le> t1 \<longrightarrow>
               Status (snd (RetrieveJob (machine w) jobID t1 t2)) = StateAvailable"
      using assms(2) un cur by (simp add: RetrieveJob_def Let_def Status_def)
    from s1 s2 s3 s4 s5 show ?thesis by blast
  qed
  have b: "Status (machine w) = StateAvailable"
    if allret: "\<forall>i j. jobs (machine w) i = Some j \<longrightarrow> JobRetrieved j \<noteq> None"
  proof (rule ccontr)
    assume "Status (machine w) \<noteq> StateAvailable"
    then have c: "currentJob (machine w) \<noteq> ''''"
      using inv_machine_available [OF im] by (simp add: Status_def)
    with im obtain j where j: "jobs (machine w) (currentJob (machine w)) = Some j"
      by (auto simp: inv_machine_def)
    from inv_machine_current [OF im j] allret j show False by blast
  qed
  from a b show ?thesis by blast
qed

text \<open>The test run after the admission, after the timer and after the retrieval.\<close>

theorem status_follows_timer_and_retrieval_witness:
  "exec NewWorld [EvStart ProductCoffee ''job-1'' 0 10 (Inr zero_bytes)] = Some world_brewing \<and>
   exec NewWorld [EvStart ProductCoffee ''job-1'' 0 10 (Inr zero_bytes), EvTimer ''job-1'' 15] =
     Some world_blocked \<and>
   exec NewWorld happy_trace = Some world_done \<and>
   Status (machine world_brewing) = StateBrewing \<and>
   Status (machine world_blocked) = StateBlocked \<and>
   Status (machine world_done) = StateAvailable \<and>
   StartJob (machine world_blocked) ProductKakao ''job-2'' 16 30 (Inr zero_bytes) =
     (Inl ErrMachineBusy, machine world_blocked) \<and>
   Status (snd (RetrieveJob (machine world_blocked) ''job-1'' 20 21)) = StateAvailable"
proof -
  have j1: "jobs (machine world_brewing) ''job-1'' = Some job1"
    by (simp add: world_brewing_def jobs_brewing)
  have j2: "jobs (machine world_blocked) ''job-1'' = Some job1"
    by (simp add: world_blocked_def jobs_blocked)
  have j3: "jobs (machine world_done) ''job-1'' = Some (job1\<lparr>JobRetrieved := Some 21\<rparr>)"
    by (simp add: world_done_def jobs_done)
  have u: "JobRetrieved job1 = None" "JobReady job1 = 10"
    by (simp_all add: job1_def)
  have p1: "pending world_brewing ''job-1''" and p2: "\<not> pending world_blocked ''job-1''"
    by (simp_all add: pending_def world_brewing_def world_blocked_def)
  have all3: "\<forall>i j. jobs (machine world_done) i = Some j \<longrightarrow> JobRetrieved j \<noteq> None"
    by (auto simp: world_done_def machine_done_def split: if_splits)
  from status_follows_timer_and_retrieval [OF exec_brewing j1] status_follows_timer_and_retrieval [OF exec_blocked j2]
    status_follows_timer_and_retrieval [OF exec_done j3] u p1 p2 all3 exec_brewing exec_blocked exec_done
  show ?thesis by simp
qed

end
